theory Spec2Isabelle
  imports Main "HOL-Library.AList"
begin

section \<open>Asset definitions of dagster: port inference and key replacement\<close>

text \<open>
  A shallow embedding of \<^verbatim>\<open>dagster/core/asset_defs/decorators.py\<close> and
  \<^verbatim>\<open>dagster/core/asset_defs/assets.py\<close>.

  A Python \<^verbatim>\<open>dict\<close> is an association list with distinct keys, kept in insertion order.
  \<^verbatim>\<open>d[k] = v\<close> is \<^const>\<open>AList.update\<close>: an existing key keeps its position and takes the
  new value, a new key is appended. \<^verbatim>\<open>d.get(k)\<close> is \<^const>\<open>map_of\<close>.
  An exception is a value of type \<open>error\<close>, returned as \<open>Inl\<close>.
\<close>

subsection \<open>Data\<close>

datatype AssetKey = AssetKey (path: "string list")

text \<open>
  \<^verbatim>\<open>DagsterInvalidDefinitionError\<close> carries the name its message quotes. The two failures of
  \<^verbatim>\<open>dagster.check\<close> raised in \<^verbatim>\<open>assets.py\<close> are both \<^verbatim>\<open>CheckError\<close> in Python; they are
  kept apart here by their message: \<^verbatim>\<open>check.invariant\<close> in \<^verbatim>\<open>asset_key\<close> (with the keys
  the message lists) and \<^verbatim>\<open>check.failed("Asset is not partitioned")\<close>.
  \<^verbatim>\<open>KeyError\<close> is raised by \<^verbatim>\<open>op.input_dict[input_name]\<close> on a missing name.
\<close>

datatype error =
    DagsterInvalidDefinitionError string
  | CheckError_multiple_asset_keys "AssetKey list"
  | CheckError_not_partitioned
  | KeyError string

type_synonym ('k, 'v) dict = "('k \<times> 'v) list"

type_synonym metadata = "(string, string) dict"

text \<open>\<^verbatim>\<open>AssetIn\<close> (module \<^verbatim>\<open>asset_in\<close>): a named tuple of three optional fields.\<close>

record AssetIn =
  ain_asset_key :: "AssetKey option"
  ain_metadata :: "metadata option"
  ain_namespace :: "string list option"

datatype dagster_type = NoValueSentinel | Nothing

text \<open>
  \<^verbatim>\<open>In\<close>: the fields that \<^verbatim>\<open>build_asset_ins\<close> sets; each one defaults to \<^verbatim>\<open>None\<close>
  (\<^verbatim>\<open>NoValueSentinel\<close> for the type, the empty dict for the metadata).
\<close>

record In =
  In_dagster_type :: dagster_type
  In_root_manager_key :: "string option"
  In_metadata :: metadata
  In_asset_key :: "AssetKey option"

text \<open>\<^verbatim>\<open>Out\<close>: \<^verbatim>\<open>asset_key\<close> is a constant key or \<^verbatim>\<open>None\<close>.\<close>

record Out =
  out_asset_key :: "AssetKey option"
  out_io_manager_key :: "string option"

subsection \<open>Python helpers\<close>

text \<open>\<^verbatim>\<open>sep.join(xs)\<close>\<close>

fun join :: "string \<Rightarrow> string list \<Rightarrow> string" where
  "join sep [] = []"
| "join sep [x] = x"
| "join sep (x # y # ys) = x @ sep @ join sep (y # ys)"

text \<open>
  A dict comprehension \<^verbatim>\<open>{k: v for ...}\<close>: the pairs are stored one after the other, so of
  two pairs with the same key the later one stays.
\<close>

definition dict_of :: "('k \<times> 'v) list \<Rightarrow> ('k, 'v) dict" where
  "dict_of kvs = fold (\<lambda>(k, v) d. AList.update k v d) kvs []"

text \<open>\<^verbatim>\<open>d.get(k, default)\<close>\<close>

definition dict_get :: "('k, 'v) dict \<Rightarrow> 'k \<Rightarrow> 'v \<Rightarrow> 'v" where
  "dict_get d k dflt = (case map_of d k of Some v \<Rightarrow> v | None \<Rightarrow> dflt)"

text \<open>
  \<^verbatim>\<open>a or b or []\<close> on optional sequences: \<^verbatim>\<open>None\<close> and the empty sequence are both falsy.
\<close>

fun seq_or :: "'a list option \<Rightarrow> 'a list option \<Rightarrow> 'a list" where
  "seq_or (Some (x # xs)) b = x # xs"
| "seq_or a (Some (y # ys)) = y # ys"
| "seq_or a b = []"

text \<open>
  The order in which Python iterates over a freshly built \<^verbatim>\<open>set\<close> of strings depends on
  their hashes. It is a parameter \<open>set_order\<close> of the functions that iterate over such a
  set: it is given the distinct elements and returns them in iteration order.
\<close>

definition is_iteration_order :: "('a list \<Rightarrow> 'a list) \<Rightarrow> bool" where
  "is_iteration_order f \<longleftrightarrow> (\<forall>xs. distinct xs \<longrightarrow> distinct (f xs) \<and> set (f xs) = set xs)"

subsection \<open>\<^verbatim>\<open>decorators.py\<close>: input ports\<close>

text \<open>
  \<^verbatim>\<open>_get_input_param_names\<close>. The function's parameters are given by their names.
  \<open>context_names\<close> is the value of \<^verbatim>\<open>get_valid_name_permutations("context")\<close>, a function of
  \<^verbatim>\<open>dagster.core.decorator_utils\<close>.
\<close>

definition get_input_param_names :: "string set \<Rightarrow> string list \<Rightarrow> string list" where
  "get_input_param_names context_names fn_params =
     (let is_context_provided = (length fn_params > 0 \<and> hd fn_params \<in> context_names)
      in if is_context_provided then tl fn_params else fn_params)"

text \<open>The body of the first loop of \<^verbatim>\<open>build_asset_ins\<close>, for one \<^verbatim>\<open>input_name\<close>.\<close>

definition ins_step ::
  "string list option \<Rightarrow> (string, AssetIn) dict \<Rightarrow> string \<Rightarrow>
   (AssetKey, string \<times> In) dict \<Rightarrow> (AssetKey, string \<times> In) dict" where
  "ins_step asset_namespace asset_ins input_name ins =
     (let (asset_key, metadata, namespace) =
            (case map_of asset_ins input_name of
               Some a \<Rightarrow>
                 (ain_asset_key a, (case ain_metadata a of Some m \<Rightarrow> m | None \<Rightarrow> []),
                  ain_namespace a)
             | None \<Rightarrow> (None, [], None));
          asset_key =
            (case asset_key of
               Some k \<Rightarrow> k
             | None \<Rightarrow>
                 AssetKey (filter (\<lambda>s. s \<noteq> []) (seq_or namespace asset_namespace @ [input_name])))
      in AList.update asset_key
           (input_name,
            \<lparr>In_dagster_type = NoValueSentinel, In_root_manager_key = Some ''root_manager'',
             In_metadata = metadata, In_asset_key = None\<rparr>)
           ins)"

text \<open>The body of the second loop, for one key of \<^verbatim>\<open>non_argument_deps\<close>.\<close>

definition nothing_in :: "AssetKey \<Rightarrow> In" where
  "nothing_in asset_key =
     \<lparr>In_dagster_type = Nothing, In_root_manager_key = None,
      In_metadata = [], In_asset_key = Some asset_key\<rparr>"

definition dep_step ::
  "AssetKey \<Rightarrow> (AssetKey, string \<times> In) dict \<Rightarrow> (AssetKey, string \<times> In) dict" where
  "dep_step asset_key ins =
     (let in_name = join ''_'' (path asset_key)
      in AList.update asset_key (in_name, nothing_in asset_key) ins)"

text \<open>
  \<^verbatim>\<open>build_asset_ins\<close>. \<open>fn\<close> is the list of the parameter names of the decorated function,
  \<open>asset_ins\<close> the dict of overrides, \<open>non_argument_deps\<close> an optional set of keys, given
  in its iteration order.
\<close>

definition build_asset_ins ::
  "string set \<Rightarrow> (string list \<Rightarrow> string list) \<Rightarrow> string list \<Rightarrow> string list option \<Rightarrow>
   (string, AssetIn) dict \<Rightarrow> AssetKey list option \<Rightarrow> error + (AssetKey, string \<times> In) dict" where
  "build_asset_ins context_names set_order fn asset_namespace asset_ins non_argument_deps =
     (let non_argument_deps = (case non_argument_deps of Some s \<Rightarrow> s | None \<Rightarrow> []);
          input_param_names = get_input_param_names context_names fn;
          all_input_names = set_order (remdups (input_param_names @ map fst asset_ins))
      in case find (\<lambda>in_key. in_key \<notin> set input_param_names) (map fst asset_ins) of
           Some in_key \<Rightarrow> Inl (DagsterInvalidDefinitionError in_key)
         | None \<Rightarrow>
             (let ins = fold (ins_step asset_namespace asset_ins) all_input_names [];
                  ins = fold dep_step non_argument_deps ins
              in Inr ins))"

subsection \<open>The wrapped op\<close>

text \<open>
  Modelled from the spec: \<^verbatim>\<open>OpDefinition\<close>, \<^verbatim>\<open>InputDefinition\<close> and \<^verbatim>\<open>OutputDefinition\<close> are
  classes of \<^verbatim>\<open>dagster.core.definitions\<close>. The wrapped computation gives an ordered list of
  declared input ports with their descriptors and an ordered list of declared output ports;
  a port is found by its name. \<open>decorated_fn\<close> is the list of the parameter names of
  \<^verbatim>\<open>op_def.compute_fn.decorated_fn\<close>.
\<close>

record InputDefinition =
  idef_name :: string
  idef_asset_key :: "AssetKey option"

record OutputDefinition =
  odef_name :: string
  odef_asset_key :: "AssetKey option"

record OpDefinition =
  decorated_fn :: "string list"
  input_defs :: "InputDefinition list"
  output_defs :: "OutputDefinition list"

definition input_dict :: "OpDefinition \<Rightarrow> (string, InputDefinition) dict" where
  "input_dict op_def = dict_of (map (\<lambda>d. (idef_name d, d)) (input_defs op_def))"

definition output_dict :: "OpDefinition \<Rightarrow> (string, OutputDefinition) dict" where
  "output_dict op_def = dict_of (map (\<lambda>d. (odef_name d, d)) (output_defs op_def))"

text \<open>The keys of \<^verbatim>\<open>op_def.ins\<close> and of \<^verbatim>\<open>op_def.outs\<close>.\<close>

definition ins_keys :: "OpDefinition \<Rightarrow> string list" where
  "ins_keys op_def = map fst (input_dict op_def)"

definition outs_keys :: "OpDefinition \<Rightarrow> string list" where
  "outs_keys op_def = map fst (output_dict op_def)"

subsection \<open>\<^verbatim>\<open>decorators.py\<close>: output ports and the inference for an existing op\<close>

text \<open>
  \<^verbatim>\<open>build_asset_outs\<close>. \<^verbatim>\<open>asset_keys_by_out_name\<close> is computed and not used afterwards, as in
  the source. \<^verbatim>\<open>not out_name_to_asset_key\<close> holds for \<^verbatim>\<open>None\<close> and for the empty dict.
\<close>

definition build_asset_outs ::
  "string \<Rightarrow> (string, Out) dict \<Rightarrow> (AssetKey, string \<times> In) dict \<Rightarrow>
   (string, AssetKey) dict option \<Rightarrow> (AssetKey, string \<times> Out option) dict" where
  "build_asset_outs op_name outs asset_ins out_name_to_asset_key =
     (let asset_keys_by_out_name =
            dict_of (map (\<lambda>(out_name, out).
              (out_name, case out_asset_key out of Some k \<Rightarrow> k | None \<Rightarrow> AssetKey [out_name])) outs);
          out_name_to_asset_key =
            (case out_name_to_asset_key of
               Some (p # ps) \<Rightarrow> p # ps
             | _ \<Rightarrow> dict_of (map (\<lambda>out_name. (out_name, AssetKey [out_name])) (map fst outs)))
      in dict_of (map (\<lambda>(out_name, asset_key). (asset_key, (out_name, map_of outs out_name)))
           out_name_to_asset_key))"

text \<open>\<^verbatim>\<open>_infer_asset_key_by_input_name\<close>\<close>

definition infer_asset_key_by_input_name ::
  "string set \<Rightarrow> (string list \<Rightarrow> string list) \<Rightarrow> OpDefinition \<Rightarrow> (string, AssetKey) dict \<Rightarrow>
   error + (string, AssetKey) dict" where
  "infer_asset_key_by_input_name context_names set_order op_def asset_key_by_input_name =
     (let params = decorated_fn op_def;
          input_param_names = get_input_param_names context_names params
      in case find (\<lambda>in_key. in_key \<notin> set input_param_names)
                (map fst asset_key_by_input_name) of
           Some in_key \<Rightarrow> Inl (DagsterInvalidDefinitionError in_key)
         | None \<Rightarrow>
             (let all_input_names = set_order (remdups (input_param_names @ ins_keys op_def))
              in Inr (dict_of (map (\<lambda>input_name.
                   (input_name, dict_get asset_key_by_input_name input_name (AssetKey [input_name])))
                   all_input_names))))"

text \<open>\<^verbatim>\<open>_infer_asset_key_by_output_name\<close>\<close>

definition infer_asset_key_by_output_name ::
  "OpDefinition \<Rightarrow> (string, AssetKey) dict \<Rightarrow> error + (string, AssetKey) dict" where
  "infer_asset_key_by_output_name op_def asset_key_by_output_name =
     (let inferred_asset_key_by_output_name = asset_key_by_output_name;
          op_outs = outs_keys op_def
      in case find (\<lambda>output_name. output_name \<notin> set op_outs)
                (map fst asset_key_by_output_name) of
           Some output_name \<Rightarrow> Inl (DagsterInvalidDefinitionError output_name)
         | None \<Rightarrow>
             Inr (fold (\<lambda>key inferred.
                    if key \<notin> set (map fst inferred)
                    then AList.update key (AssetKey [key]) inferred else inferred)
                  op_outs inferred_asset_key_by_output_name))"

subsection \<open>\<^verbatim>\<open>assets.py\<close>\<close>

text \<open>
  \<^verbatim>\<open>AssetsDefinition\<close>. The partitions definition \<open>'pd\<close> and the partition mapping \<open>'pm\<close> are
  opaque values.
\<close>

record ('pd, 'pm) AssetsDefinition =
  op :: OpDefinition
  input_defs_by_asset_key :: "(AssetKey, InputDefinition) dict"
  output_defs_by_asset_key :: "(AssetKey, OutputDefinition) dict"
  partitions_def :: "'pd option"
  partition_mappings :: "(AssetKey, 'pm) dict"

text \<open>
  The dict comprehension \<^verbatim>\<open>{asset_key: port_dict[name] for asset_key, name in items}\<close> of
  \<^verbatim>\<open>__init__\<close>: a name that \<open>port_dict\<close> does not have raises \<^verbatim>\<open>KeyError\<close>.
\<close>

fun defs_by_asset_key ::
  "(string, 'd) dict \<Rightarrow> (AssetKey \<times> string) list \<Rightarrow> (AssetKey, 'd) dict \<Rightarrow>
   error + (AssetKey, 'd) dict" where
  "defs_by_asset_key port_dict [] acc = Inr acc"
| "defs_by_asset_key port_dict ((asset_key, name) # items) acc =
     (case map_of port_dict name of
        None \<Rightarrow> Inl (KeyError name)
      | Some d \<Rightarrow> defs_by_asset_key port_dict items (AList.update asset_key d acc))"

text \<open>\<^verbatim>\<open>AssetsDefinition.__init__\<close>\<close>

definition AssetsDefinition_init ::
  "(AssetKey, string) dict \<Rightarrow> (AssetKey, string) dict \<Rightarrow> OpDefinition \<Rightarrow> 'pd option \<Rightarrow>
   (AssetKey, 'pm) dict option \<Rightarrow> error + ('pd, 'pm) AssetsDefinition" where
  "AssetsDefinition_init input_names_by_asset_key output_names_by_asset_key op_def
     partitions_def' partition_mappings' =
     (case defs_by_asset_key (input_dict op_def) input_names_by_asset_key [] of
        Inl e \<Rightarrow> Inl e
      | Inr idefs \<Rightarrow>
          (case defs_by_asset_key (output_dict op_def) output_names_by_asset_key [] of
             Inl e \<Rightarrow> Inl e
           | Inr odefs \<Rightarrow>
               Inr \<lparr>op = op_def, input_defs_by_asset_key = idefs,
                    output_defs_by_asset_key = odefs, partitions_def = partitions_def',
                    partition_mappings =
                      (case partition_mappings' of Some m \<Rightarrow> m | None \<Rightarrow> [])\<rparr>))"

text \<open>The property \<^verbatim>\<open>asset_key\<close>\<close>

definition asset_key :: "('pd, 'pm) AssetsDefinition \<Rightarrow> error + AssetKey" where
  "asset_key self =
     (if length (output_defs_by_asset_key self) = 1
      then Inr (fst (hd (output_defs_by_asset_key self)))
      else Inl (CheckError_multiple_asset_keys (map fst (output_defs_by_asset_key self))))"

text \<open>The properties \<^verbatim>\<open>asset_keys\<close> and \<^verbatim>\<open>dependency_asset_keys\<close>\<close>

definition asset_keys :: "('pd, 'pm) AssetsDefinition \<Rightarrow> AssetKey list" where
  "asset_keys self = map fst (output_defs_by_asset_key self)"

definition dependency_asset_keys :: "('pd, 'pm) AssetsDefinition \<Rightarrow> AssetKey list" where
  "dependency_asset_keys self = map fst (input_defs_by_asset_key self)"

text \<open>
  \<^verbatim>\<open>get_partition_mapping\<close>. \<open>get_default_partition_mapping\<close> is the method of that name of
  \<^verbatim>\<open>PartitionsDefinition\<close>.
\<close>

definition get_partition_mapping ::
  "('pd \<Rightarrow> 'pm) \<Rightarrow> ('pd, 'pm) AssetsDefinition \<Rightarrow> AssetKey \<Rightarrow> error + 'pm" where
  "get_partition_mapping get_default_partition_mapping self in_asset_key =
     (case partitions_def self of
        None \<Rightarrow> Inl CheckError_not_partitioned
      | Some pd \<Rightarrow>
          Inr (dict_get (partition_mappings self) in_asset_key (get_default_partition_mapping pd)))"

text \<open>
  \<^verbatim>\<open>with_replaced_asset_keys\<close>. \<open>op_with_replaced_asset_keys\<close> is the method of that name of
  \<^verbatim>\<open>OpDefinition\<close>, given the output table, the input table and the op.
\<close>

definition with_replaced_asset_keys ::
  "((AssetKey, AssetKey) dict \<Rightarrow> (AssetKey, AssetKey) dict \<Rightarrow> OpDefinition \<Rightarrow> OpDefinition) \<Rightarrow>
   ('pd, 'pm) AssetsDefinition \<Rightarrow> (AssetKey, AssetKey) dict \<Rightarrow> (AssetKey, AssetKey) dict \<Rightarrow>
   error + ('pd, 'pm) AssetsDefinition" where
  "with_replaced_asset_keys op_with_replaced_asset_keys self
     output_asset_key_replacements input_asset_key_replacements =
     AssetsDefinition_init
       (dict_of (map (\<lambda>(key, input_def).
          (dict_get input_asset_key_replacements key key, idef_name input_def))
          (input_defs_by_asset_key self)))
       (dict_of (map (\<lambda>(key, output_def).
          (dict_get output_asset_key_replacements key key, odef_name output_def))
          (output_defs_by_asset_key self)))
       (op_with_replaced_asset_keys output_asset_key_replacements input_asset_key_replacements
          (op self))
       (partitions_def self)
       (Some (partition_mappings self))"

subsection \<open>Example values\<close>

text \<open>
  An op with the inputs \<open>a\<close> and \<open>b\<close> and the outputs \<open>result\<close> and \<open>other\<close>, none of
  which carries a key of its own, so that the replacement of keys in the op leaves it as it
  is; and two assets definitions built on it.
\<close>

definition port_a :: InputDefinition where
  "port_a = \<lparr>idef_name = ''a'', idef_asset_key = None\<rparr>"

definition port_b :: InputDefinition where
  "port_b = \<lparr>idef_name = ''b'', idef_asset_key = None\<rparr>"

definition port_result :: OutputDefinition where
  "port_result = \<lparr>odef_name = ''result'', odef_asset_key = None\<rparr>"

definition port_other :: OutputDefinition where
  "port_other = \<lparr>odef_name = ''other'', odef_asset_key = None\<rparr>"

definition example_op :: OpDefinition where
  "example_op = \<lparr>decorated_fn = [''a'', ''b''], input_defs = [port_a, port_b],
                 output_defs = [port_result, port_other]\<rparr>"

definition keep_op ::
  "(AssetKey, AssetKey) dict \<Rightarrow> (AssetKey, AssetKey) dict \<Rightarrow> OpDefinition \<Rightarrow> OpDefinition" where
  "keep_op output_asset_key_replacements input_asset_key_replacements op_def = op_def"

definition example_assets :: "(string, string) AssetsDefinition" where
  "example_assets =
     \<lparr>op = example_op,
      input_defs_by_asset_key = [(AssetKey [''k1''], port_a), (AssetKey [''k2''], port_b)],
      output_defs_by_asset_key = [(AssetKey [''r''], port_result)],
      partitions_def = None, partition_mappings = []\<rparr>"

definition partitioned_assets :: "(string, string) AssetsDefinition" where
  "partitioned_assets =
     \<lparr>op = example_op,
      input_defs_by_asset_key = [(AssetKey [''up''], port_a)],
      output_defs_by_asset_key = [(AssetKey [''r''], port_result)],
      partitions_def = Some ''daily'',
      partition_mappings = [(AssetKey [''up''], ''previous_day'')]\<rparr>"

section \<open>Lemmas on the input loop\<close>

lemma get_input_param_names_subset:
  "set (get_input_param_names context_names fn) \<subseteq> set fn"
  by (cases fn) (auto simp: get_input_param_names_def Let_def)

lemma find_not_in_Some:
  "x \<in> set xs \<Longrightarrow> \<not> P x \<Longrightarrow> \<exists>y. find (\<lambda>k. \<not> P k) xs = Some y \<and> y \<in> set xs \<and> \<not> P y"
  by (induction xs) auto

lemma find_not_in_None:
  "(\<forall>x\<in>set xs. P x) \<Longrightarrow> find (\<lambda>k. \<not> P k) xs = None"
  by (induction xs) auto

lemma join_concat:
  "join sep xs = (case xs of [] \<Rightarrow> [] | s # ss \<Rightarrow> s @ concat (map (\<lambda>t. sep @ t) ss))"
  by (induction sep xs rule: join.induct) simp_all

lemma map_of_fold_dep_step:
  "map_of (fold dep_step deps acc) k =
     (if k \<in> set deps then Some (join ''_'' (path k), nothing_in k) else map_of acc k)"
  by (induction deps arbitrary: acc rule: rev_induct) (auto simp: dep_step_def update_conv')

lemma distinct_ins_step:
  "distinct (map fst acc) \<Longrightarrow> distinct (map fst (ins_step ns ai n acc))"
  by (simp add: ins_step_def distinct_update split: option.splits)

lemma distinct_fold_ins_step:
  "distinct (map fst acc) \<Longrightarrow> distinct (map fst (fold (ins_step ns ai) names acc))"
  by (induction names arbitrary: acc) (simp_all add: distinct_ins_step)

lemma distinct_fold_dep_step:
  "distinct (map fst acc) \<Longrightarrow> distinct (map fst (fold dep_step deps acc))"
  by (induction deps arbitrary: acc) (auto simp: dep_step_def distinct_update)

lemma build_asset_ins_Inl:
  assumes "name \<in> fst ` set asset_ins" "name \<notin> set (get_input_param_names cn fn)"
  shows "\<exists>k. build_asset_ins cn so fn ns asset_ins deps = Inl (DagsterInvalidDefinitionError k)
     \<and> k \<in> fst ` set asset_ins \<and> k \<notin> set (get_input_param_names cn fn)"
proof -
  from assms have "name \<in> set (map fst asset_ins)" by simp
  from find_not_in_Some[OF this, where P = "\<lambda>k. k \<in> set (get_input_param_names cn fn)"] assms(2)
  obtain y where "find (\<lambda>k. k \<notin> set (get_input_param_names cn fn)) (map fst asset_ins) = Some y"
    "y \<in> set (map fst asset_ins)" "y \<notin> set (get_input_param_names cn fn)" by blast
  then show ?thesis by (auto simp: build_asset_ins_def Let_def)
qed

lemma infer_asset_key_by_input_name_Inl:
  assumes "name \<in> fst ` set overrides"
    and "name \<notin> set (get_input_param_names cn (decorated_fn op_def))"
  shows "\<exists>k. infer_asset_key_by_input_name cn so op_def overrides
            = Inl (DagsterInvalidDefinitionError k)
     \<and> k \<in> fst ` set overrides \<and> k \<notin> set (get_input_param_names cn (decorated_fn op_def))"
proof -
  let ?P = "\<lambda>k. k \<in> set (get_input_param_names cn (decorated_fn op_def))"
  from assms have "name \<in> set (map fst overrides)" by simp
  from find_not_in_Some[OF this, where P = ?P] assms(2)
  obtain y where "find (\<lambda>k. \<not> ?P k) (map fst overrides) = Some y"
    "y \<in> set (map fst overrides)" "\<not> ?P y" by blast
  then show ?thesis by (auto simp: infer_asset_key_by_input_name_def Let_def)
qed

lemma build_asset_ins_None_Inr:
  assumes "build_asset_ins cn so fn ns asset_ins None = Inr ins0"
  shows "ins0 = fold (ins_step ns asset_ins)
            (so (remdups (get_input_param_names cn fn @ map fst asset_ins))) []"
    and "build_asset_ins cn so fn ns asset_ins (Some deps) = Inr (fold dep_step deps ins0)"
  using assms by (auto simp: build_asset_ins_def Let_def split: option.splits)

lemma two_element_orders:
  assumes "distinct ys" "set ys = {a, b}" "a \<noteq> b"
  shows "ys = [a, b] \<or> ys = [b, a]"
proof -
  from assms have "length ys = 2" by (metis distinct_card card_2_iff)
  then obtain x y where "ys = [x, y]"
    by (metis (no_types) length_0_conv length_Suc_conv numeral_2_eq_2)
  with assms show ?thesis by auto
qed

lemma set_update_subset: "set (AList.update k v al) \<subseteq> insert (k, v) (set al)"
  by (induction al) auto

lemma ins_step_entries:
  assumes "\<forall>e\<in>set acc. In_dagster_type (snd (snd e)) = NoValueSentinel"
  shows "\<forall>e\<in>set (ins_step ns ai name acc). In_dagster_type (snd (snd e)) = NoValueSentinel"
proof -
  define k where "k =
    (case map_of ai name of
       Some a \<Rightarrow>
         (case ain_asset_key a of
            Some k \<Rightarrow> k
          | None \<Rightarrow> AssetKey (filter (\<lambda>s. s \<noteq> []) (seq_or (ain_namespace a) ns @ [name])))
     | None \<Rightarrow> AssetKey (filter (\<lambda>s. s \<noteq> []) (seq_or None ns @ [name])))"
  define v where "v =
    (name, \<lparr>In_dagster_type = NoValueSentinel, In_root_manager_key = Some ''root_manager'',
      In_metadata =
        (case map_of ai name of
           Some a \<Rightarrow> (case ain_metadata a of Some m \<Rightarrow> m | None \<Rightarrow> [])
         | None \<Rightarrow> []),
      In_asset_key = None\<rparr>)"
  have s: "ins_step ns ai name acc = AList.update k v acc"
    by (simp add: ins_step_def k_def v_def split: option.splits)
  have v: "In_dagster_type (snd v) = NoValueSentinel" by (simp add: v_def)
  have "set (AList.update k v acc) \<subseteq> insert (k, v) (set acc)" by (rule set_update_subset)
  with assms v show ?thesis unfolding s by auto
qed

lemma fold_ins_step_entries:
  "\<forall>e\<in>set acc. In_dagster_type (snd (snd e)) = NoValueSentinel \<Longrightarrow>
   \<forall>e\<in>set (fold (ins_step ns ai) names acc). In_dagster_type (snd (snd e)) = NoValueSentinel"
proof (induction names arbitrary: acc)
  case Nil
  then show ?case by simp
next
  case (Cons a names)
  from Cons.prems have "\<forall>e\<in>set (ins_step ns ai a acc). In_dagster_type (snd (snd e)) = NoValueSentinel"
    by (rule ins_step_entries)
  from Cons.IH[OF this] show ?case by simp
qed

section \<open>Input port inference\<close>

text \<open>
  C1. For a function with the parameters \<open>(context, upstream_a, upstream_b)\<close>, an override of
  \<open>upstream_a\<close> by the explicit key \<open>["ns", "A"]\<close>, no override of \<open>upstream_b\<close>, and
  \<open>context\<close> among the recognised context names, \<^verbatim>\<open>build_asset_ins\<close> drops the context
  parameter and returns the dict with exactly two entries: \<open>["ns", "A"]\<close> with the local
  name \<open>upstream_a\<close> and \<open>["upstream_b"]\<close> with the local name \<open>upstream_b\<close>, whatever the
  order in which the set of names is iterated.
\<close>

theorem build_asset_ins_context_example:
  assumes "''context'' \<in> context_names" and "is_iteration_order set_order"
  shows "\<exists>ins. build_asset_ins context_names set_order
            [''context'', ''upstream_a'', ''upstream_b''] None
            [(''upstream_a'', \<lparr>ain_asset_key = Some (AssetKey [''ns'', ''A'']),
                                ain_metadata = md, ain_namespace = nsp\<rparr>)] None = Inr ins
          \<and> distinct (map fst ins)
          \<and> set ins =
              {(AssetKey [''ns'', ''A''], ''upstream_a'',
                \<lparr>In_dagster_type = NoValueSentinel, In_root_manager_key = Some ''root_manager'',
                 In_metadata = (case md of Some m \<Rightarrow> m | None \<Rightarrow> []),
                 In_asset_key = None\<rparr>),
               (AssetKey [''upstream_b''], ''upstream_b'',
                \<lparr>In_dagster_type = NoValueSentinel, In_root_manager_key = Some ''root_manager'',
                 In_metadata = [], In_asset_key = None\<rparr>)}"
proof -
  let ?ai = "[(''upstream_a'', \<lparr>ain_asset_key = Some (AssetKey [''ns'', ''A'']),
                                ain_metadata = md, ain_namespace = nsp\<rparr>)]"
  let ?fn = "[''context'', ''upstream_a'', ''upstream_b'']"
  let ?names = "set_order [''upstream_b'', ''upstream_a'']"
  have params: "get_input_param_names context_names ?fn = [''upstream_a'', ''upstream_b'']"
    using assms(1) by (simp add: get_input_param_names_def)
  have "distinct [''upstream_b'', ''upstream_a'']" by simp
  with assms(2) have "distinct ?names" and "set ?names = set [''upstream_b'', ''upstream_a'']"
    unfolding is_iteration_order_def by blast+
  then have "?names = [''upstream_a'', ''upstream_b''] \<or> ?names = [''upstream_b'', ''upstream_a'']"
    by (intro two_element_orders) auto
  moreover have "build_asset_ins context_names set_order ?fn None ?ai None =
      Inr (fold (ins_step None ?ai) ?names [])"
    by (simp add: build_asset_ins_def params)
  ultimately show ?thesis
    by (auto simp: ins_step_def)
qed

theorem build_asset_ins_context_example_witness:
  "''context'' \<in> {''_'', ''context'', ''_context'', ''context_''}
   \<and> is_iteration_order (\<lambda>xs :: string list. xs)
   \<and> (\<exists>ins. build_asset_ins {''_'', ''context'', ''_context'', ''context_''} (\<lambda>xs. xs)
            [''context'', ''upstream_a'', ''upstream_b''] None
            [(''upstream_a'', \<lparr>ain_asset_key = Some (AssetKey [''ns'', ''A'']),
                                ain_metadata = None, ain_namespace = None\<rparr>)] None = Inr ins
          \<and> distinct (map fst ins)
          \<and> set ins =
              {(AssetKey [''ns'', ''A''], ''upstream_a'',
                \<lparr>In_dagster_type = NoValueSentinel, In_root_manager_key = Some ''root_manager'',
                 In_metadata = [], In_asset_key = None\<rparr>),
               (AssetKey [''upstream_b''], ''upstream_b'',
                \<lparr>In_dagster_type = NoValueSentinel, In_root_manager_key = Some ''root_manager'',
                 In_metadata = [], In_asset_key = None\<rparr>)})"
proof -
  have h1: "''context'' \<in> {''_'', ''context'', ''_context'', ''context_''}" by simp
  have h2: "is_iteration_order (\<lambda>xs :: string list. xs)" by (simp add: is_iteration_order_def)
  from build_asset_ins_context_example [OF h1 h2, of None None] h1 h2
  show ?thesis by simp
qed

text \<open>
  C7. An override whose name is not a parameter of the function makes the inference fail
  with \<^verbatim>\<open>DagsterInvalidDefinitionError\<close>, whatever the other arguments are: in
  \<^verbatim>\<open>build_asset_ins\<close> and in \<^verbatim>\<open>_infer_asset_key_by_input_name\<close>. The error names an
  override that is not an input parameter.
\<close>

theorem override_of_undeclared_name_fails:
  "(name \<in> fst ` set asset_ins \<and> name \<notin> set fn \<longrightarrow>
      (\<exists>k. build_asset_ins context_names set_order fn asset_namespace asset_ins non_argument_deps
             = Inl (DagsterInvalidDefinitionError k)
           \<and> k \<in> fst ` set asset_ins \<and> k \<notin> set (get_input_param_names context_names fn)))
   \<and> (name \<in> fst ` set asset_key_by_input_name \<and> name \<notin> set (decorated_fn op_def) \<longrightarrow>
      (\<exists>k. infer_asset_key_by_input_name context_names set_order op_def asset_key_by_input_name
             = Inl (DagsterInvalidDefinitionError k)
           \<and> k \<in> fst ` set asset_key_by_input_name
           \<and> k \<notin> set (get_input_param_names context_names (decorated_fn op_def))))"
proof (intro conjI impI)
  assume a: "name \<in> fst ` set asset_ins \<and> name \<notin> set fn"
  then have "name \<notin> set (get_input_param_names context_names fn)"
    using get_input_param_names_subset by blast
  with a show "\<exists>k. build_asset_ins context_names set_order fn asset_namespace asset_ins
             non_argument_deps = Inl (DagsterInvalidDefinitionError k)
           \<and> k \<in> fst ` set asset_ins \<and> k \<notin> set (get_input_param_names context_names fn)"
    by (intro build_asset_ins_Inl) auto
next
  assume a: "name \<in> fst ` set asset_key_by_input_name \<and> name \<notin> set (decorated_fn op_def)"
  then have "name \<notin> set (get_input_param_names context_names (decorated_fn op_def))"
    using get_input_param_names_subset by blast
  with a show "\<exists>k. infer_asset_key_by_input_name context_names set_order op_def
             asset_key_by_input_name = Inl (DagsterInvalidDefinitionError k)
           \<and> k \<in> fst ` set asset_key_by_input_name
           \<and> k \<notin> set (get_input_param_names context_names (decorated_fn op_def))"
    by (intro infer_asset_key_by_input_name_Inl) auto
qed

theorem override_of_undeclared_name_fails_witness:
  "(''x'' \<in> fst ` set [(''x'', \<lparr>ain_asset_key = None, ain_metadata = None, ain_namespace = None\<rparr>)]
      \<and> ''x'' \<notin> set [''context'', ''a''])
   \<and> build_asset_ins {''context''} (\<lambda>xs. xs) [''context'', ''a''] None
        [(''x'', \<lparr>ain_asset_key = None, ain_metadata = None, ain_namespace = None\<rparr>)] None
      = Inl (DagsterInvalidDefinitionError ''x'')
   \<and> (''x'' \<in> fst ` set [(''x'', AssetKey [''k''])]
      \<and> ''x'' \<notin> set (decorated_fn
            \<lparr>decorated_fn = [''context'', ''a''], input_defs = [], output_defs = []\<rparr>))
   \<and> infer_asset_key_by_input_name {''context''} (\<lambda>xs. xs)
        \<lparr>decorated_fn = [''context'', ''a''], input_defs = [], output_defs = []\<rparr>
        [(''x'', AssetKey [''k''])]
      = Inl (DagsterInvalidDefinitionError ''x'')"
  using override_of_undeclared_name_fails [of "''x''"
      "[(''x'', \<lparr>ain_asset_key = None, ain_metadata = None, ain_namespace = None\<rparr>)]"
      "[''context'', ''a'']" "{''context''}" "\<lambda>xs. xs" None None
      "[(''x'', AssetKey [''k''])]"
      "\<lparr>decorated_fn = [''context'', ''a''], input_defs = [], output_defs = []\<rparr>"]
  by auto

text \<open>
  C10. When a key \<open>k\<close> of \<^verbatim>\<open>non_argument_deps\<close> is a key that the inference gives to a
  parameter \<open>p\<close> (the inference without \<^verbatim>\<open>non_argument_deps\<close> returns an entry for it),
  \<^verbatim>\<open>build_asset_ins\<close> raises nothing: the result has one entry for that key, the parameter's
  entry is gone, the local name is made of the segments of the path of \<open>k\<close> with \<open>_\<close>
  between them, and the port has the type \<^verbatim>\<open>Nothing\<close> and the key \<open>k\<close>. The keys outside
  \<^verbatim>\<open>non_argument_deps\<close> keep their entries.
\<close>

theorem non_argument_dep_replaces_parameter_entry:
  assumes "build_asset_ins context_names set_order fn asset_namespace asset_ins None = Inr ins0"
      and "map_of ins0 k = Some (p, i)"
      and "k \<in> set non_argument_deps"
  shows "\<exists>ins. build_asset_ins context_names set_order fn asset_namespace asset_ins
                 (Some non_argument_deps) = Inr ins
           \<and> map_of ins k =
               Some (case path k of [] \<Rightarrow> [] | s # ss \<Rightarrow> s @ concat (map (\<lambda>t. ''_'' @ t) ss),
                     \<lparr>In_dagster_type = Nothing, In_root_manager_key = None,
                      In_metadata = [], In_asset_key = Some k\<rparr>)
           \<and> (k, p, i) \<notin> set ins
           \<and> distinct (map fst ins)
           \<and> (\<forall>k'. k' \<notin> set non_argument_deps \<longrightarrow> map_of ins k' = map_of ins0 k')"
proof -
  let ?ins = "fold dep_step non_argument_deps ins0"
  note b = build_asset_ins_None_Inr[OF assms(1)]
  have d0: "distinct (map fst ins0)"
    unfolding b(1) by (rule distinct_fold_ins_step) simp
  then have d: "distinct (map fst ?ins)" by (rule distinct_fold_dep_step)
  have m: "map_of ?ins k = Some (join ''_'' (path k), nothing_in k)"
    using assms(3) by (simp add: map_of_fold_dep_step)
  have "\<forall>e\<in>set ins0. In_dagster_type (snd (snd e)) = NoValueSentinel"
    unfolding b(1) by (rule fold_ins_step_entries) simp
  moreover have "(k, p, i) \<in> set ins0" using assms(2) by (rule map_of_SomeD)
  ultimately have i: "In_dagster_type i = NoValueSentinel" by fastforce
  have "(k, p, i) \<notin> set ?ins"
  proof
    assume "(k, p, i) \<in> set ?ins"
    with d have "map_of ?ins k = Some (p, i)" by simp
    with m have "i = nothing_in k" by simp
    with i show False by (simp add: nothing_in_def)
  qed
  moreover have "\<forall>k'. k' \<notin> set non_argument_deps \<longrightarrow> map_of ?ins k' = map_of ins0 k'"
    by (simp add: map_of_fold_dep_step)
  moreover have "map_of ?ins k =
      Some (case path k of [] \<Rightarrow> [] | s # ss \<Rightarrow> s @ concat (map (\<lambda>t. ''_'' @ t) ss),
            \<lparr>In_dagster_type = Nothing, In_root_manager_key = None,
             In_metadata = [], In_asset_key = Some k\<rparr>)"
    using m by (simp add: nothing_in_def join_concat)
  ultimately show ?thesis
    using b(2)[of non_argument_deps] d by simp
qed

theorem non_argument_dep_replaces_parameter_entry_witness:
  "build_asset_ins {''context''} (\<lambda>xs. xs) [''x''] None
     [(''x'', \<lparr>ain_asset_key = Some (AssetKey [''a'', ''b'']), ain_metadata = None,
               ain_namespace = None\<rparr>)] None
     = Inr [(AssetKey [''a'', ''b''], ''x'',
             \<lparr>In_dagster_type = NoValueSentinel, In_root_manager_key = Some ''root_manager'',
              In_metadata = [], In_asset_key = None\<rparr>)]
   \<and> build_asset_ins {''context''} (\<lambda>xs. xs) [''x''] None
       [(''x'', \<lparr>ain_asset_key = Some (AssetKey [''a'', ''b'']), ain_metadata = None,
                 ain_namespace = None\<rparr>)] (Some [AssetKey [''a'', ''b'']])
     = Inr [(AssetKey [''a'', ''b''], ''a_b'',
             \<lparr>In_dagster_type = Nothing, In_root_manager_key = None,
              In_metadata = [], In_asset_key = Some (AssetKey [''a'', ''b''])\<rparr>)]"
proof -
  let ?ai = "[(''x'', \<lparr>ain_asset_key = Some (AssetKey [''a'', ''b'']), ain_metadata = None,
               ain_namespace = None\<rparr>)]"
  let ?i = "\<lparr>In_dagster_type = NoValueSentinel, In_root_manager_key = Some ''root_manager'',
              In_metadata = [], In_asset_key = None\<rparr>"
  have h1: "build_asset_ins {''context''} (\<lambda>xs. xs) [''x''] None ?ai None
     = Inr [(AssetKey [''a'', ''b''], ''x'', ?i)]"
    by (simp add: build_asset_ins_def get_input_param_names_def ins_step_def)
  have h2: "map_of [(AssetKey [''a'', ''b''], ''x'', ?i)] (AssetKey [''a'', ''b'']) = Some (''x'', ?i)"
    by simp
  have h3: "AssetKey [''a'', ''b''] \<in> set [AssetKey [''a'', ''b'']]" by simp
  from non_argument_dep_replaces_parameter_entry [OF h1 h2 h3] h1
  show ?thesis
    by (simp add: build_asset_ins_def get_input_param_names_def ins_step_def dep_step_def
        nothing_in_def)
qed

text \<open>
  C5, as the code has it. \<^verbatim>\<open>build_asset_ins\<close> has no check for two keys with the same local
  name. When the inference without \<^verbatim>\<open>non_argument_deps\<close> succeeds and gives the key \<open>kp\<close>
  the local name \<open>p\<close>, and a key \<open>k\<close> of \<^verbatim>\<open>non_argument_deps\<close> has a path whose segments,
  with \<open>_\<close> between them, make \<open>p\<close>, and \<open>kp\<close> is not itself in \<^verbatim>\<open>non_argument_deps\<close>,
  then the inference with \<^verbatim>\<open>non_argument_deps\<close> succeeds and its result has both keys: two
  distinct keys with the local name \<open>p\<close>.
\<close>

theorem build_asset_ins_keeps_name_collision:
  assumes "build_asset_ins context_names set_order fn asset_namespace asset_ins None = Inr ins0"
      and "map_of ins0 kp = Some (p, i)"
      and "k \<in> set non_argument_deps"
      and "(case path k of [] \<Rightarrow> [] | s # ss \<Rightarrow> s @ concat (map (\<lambda>t. ''_'' @ t) ss)) = p"
      and "kp \<notin> set non_argument_deps"
  shows "\<exists>ins. build_asset_ins context_names set_order fn asset_namespace asset_ins
                 (Some non_argument_deps) = Inr ins
           \<and> kp \<noteq> k
           \<and> map_of ins kp = Some (p, i)
           \<and> map_of ins k =
               Some (p, \<lparr>In_dagster_type = Nothing, In_root_manager_key = None,
                         In_metadata = [], In_asset_key = Some k\<rparr>)"
proof -
  from assms(4) have j: "join ''_'' (path k) = p" by (simp add: join_concat)
  from build_asset_ins_None_Inr(2)[OF assms(1), of non_argument_deps] assms(2,3,5) j
  show ?thesis by (auto simp: map_of_fold_dep_step nothing_in_def)
qed

theorem build_asset_ins_keeps_name_collision_witness:
  "build_asset_ins {''context''} (\<lambda>xs. xs) [''a_b''] None [] None
     = Inr [(AssetKey [''a_b''], ''a_b'',
             \<lparr>In_dagster_type = NoValueSentinel, In_root_manager_key = Some ''root_manager'',
              In_metadata = [], In_asset_key = None\<rparr>)]
   \<and> (\<exists>ins. build_asset_ins {''context''} (\<lambda>xs. xs) [''a_b''] None []
               (Some [AssetKey [''a'', ''b'']]) = Inr ins
        \<and> map_of ins (AssetKey [''a_b'']) =
            Some (''a_b'', \<lparr>In_dagster_type = NoValueSentinel,
              In_root_manager_key = Some ''root_manager'',
              In_metadata = [], In_asset_key = None\<rparr>)
        \<and> map_of ins (AssetKey [''a'', ''b'']) =
            Some (''a_b'', \<lparr>In_dagster_type = Nothing, In_root_manager_key = None,
              In_metadata = [], In_asset_key = Some (AssetKey [''a'', ''b''])\<rparr>))"
proof -
  let ?i = "\<lparr>In_dagster_type = NoValueSentinel, In_root_manager_key = Some ''root_manager'',
              In_metadata = [], In_asset_key = None\<rparr>"
  have h1: "build_asset_ins {''context''} (\<lambda>xs. xs) [''a_b''] None [] None
     = Inr [(AssetKey [''a_b''], ''a_b'', ?i)]"
    by (simp add: build_asset_ins_def get_input_param_names_def ins_step_def)
  have h2: "map_of [(AssetKey [''a_b''], ''a_b'', ?i)] (AssetKey [''a_b'']) = Some (''a_b'', ?i)"
    by simp
  have h3: "AssetKey [''a'', ''b''] \<in> set [AssetKey [''a'', ''b'']]" by simp
  have h4: "(case path (AssetKey [''a'', ''b'']) of [] \<Rightarrow> []
             | s # ss \<Rightarrow> s @ concat (map (\<lambda>t. ''_'' @ t) ss)) = ''a_b''" by simp
  have h5: "AssetKey [''a_b''] \<notin> set [AssetKey [''a'', ''b'']]" by simp
  from build_asset_ins_keeps_name_collision [OF h1 h2 h3 h4 h5] h1
  show ?thesis by simp
qed

text \<open>
  C5, as the claim states it, fails: for the parameter \<open>a_b\<close> and the dependency-only key
  \<open>["a", "b"]\<close> the function returns a dict in which both keys have the local name \<open>a_b\<close>.
\<close>

theorem build_asset_ins_collision_counterexample:
  "build_asset_ins {''context''} (\<lambda>xs. xs) [''a_b''] None [] (Some [AssetKey [''a'', ''b'']])
     = Inr [(AssetKey [''a_b''], ''a_b'',
             \<lparr>In_dagster_type = NoValueSentinel, In_root_manager_key = Some ''root_manager'',
              In_metadata = [], In_asset_key = None\<rparr>),
            (AssetKey [''a'', ''b''], ''a_b'',
             \<lparr>In_dagster_type = Nothing, In_root_manager_key = None,
              In_metadata = [], In_asset_key = Some (AssetKey [''a'', ''b''])\<rparr>)]"
  by (simp add: build_asset_ins_def get_input_param_names_def ins_step_def dep_step_def
      nothing_in_def)

section \<open>Lemmas on dicts and on the construction of an assets definition\<close>

lemma fold_update_keys:
  "fst ` set (fold (\<lambda>(k, v) d. AList.update k v d) kvs acc) = fst ` set kvs \<union> fst ` set acc"
proof (induction kvs arbitrary: acc)
  case Nil
  then show ?case by simp
next
  case (Cons kv kvs)
  obtain k v where kv: "kv = (k, v)" by (cases kv)
  have "fst ` set (fold (\<lambda>(k, v) d. AList.update k v d) kvs (AList.update k v acc))
      = fst ` set kvs \<union> fst ` set (AList.update k v acc)"
    by (rule Cons.IH)
  then show ?case unfolding kv by (simp add: dom_update Un_ac)
qed

lemma dict_of_keys: "fst ` set (dict_of kvs) = fst ` set kvs"
  by (simp add: dict_of_def fold_update_keys)

lemma fold_update_distinct:
  "distinct (map fst acc) \<Longrightarrow>
   distinct (map fst (fold (\<lambda>(k, v) d. AList.update k v d) kvs acc))"
  by (induction kvs arbitrary: acc) (auto simp: distinct_update)

lemma dict_of_distinct: "distinct (map fst (dict_of kvs))"
  by (simp add: dict_of_def fold_update_distinct)

lemma defs_by_asset_key_distinct:
  "defs_by_asset_key pd items acc = Inr r \<Longrightarrow> distinct (map fst acc) \<Longrightarrow> distinct (map fst r)"
  by (induction pd items acc rule: defs_by_asset_key.induct)
     (auto simp: distinct_update split: option.splits)

lemma defs_by_asset_key_keys:
  "defs_by_asset_key pd items acc = Inr r \<Longrightarrow> fst ` set r = fst ` set items \<union> fst ` set acc"
  by (induction pd items acc rule: defs_by_asset_key.induct)
     (auto simp: dom_update split: option.splits)

lemma defs_by_asset_key_succeeds:
  "snd ` set items \<subseteq> fst ` set pd \<Longrightarrow> \<exists>r. defs_by_asset_key pd items acc = Inr r"
proof (induction pd items acc rule: defs_by_asset_key.induct)
  case (1 port_dict acc)
  then show ?case by simp
next
  case (2 port_dict asset_key name items acc)
  from 2(2) have "name \<in> fst ` set port_dict" by simp
  then obtain d where d: "map_of port_dict name = Some d"
    by (metis map_of_eq_None_iff not_None_eq)
  from 2(2) have "snd ` set items \<subseteq> fst ` set port_dict" by auto
  from 2(1)[OF d this] d show ?case by simp
qed

lemma init_Inr:
  assumes "AssetsDefinition_init i ou op_def pd pm = Inr d"
  shows "defs_by_asset_key (input_dict op_def) i [] = Inr (input_defs_by_asset_key d)"
    and "defs_by_asset_key (output_dict op_def) ou [] = Inr (output_defs_by_asset_key d)"
    and "op d = op_def" and "partitions_def d = pd"
    and "partition_mappings d = (case pm of Some m \<Rightarrow> m | None \<Rightarrow> [])"
  using assms by (auto simp: AssetsDefinition_init_def split: sum.splits)


lemma update_fresh: "k \<notin> fst ` set al \<Longrightarrow> AList.update k v al = al @ [(k, v)]"
  by (induction al) auto

lemma fold_update_fresh:
  "distinct (map fst (acc @ kvs)) \<Longrightarrow>
   fold (\<lambda>(k, v) d. AList.update k v d) kvs acc = acc @ kvs"
proof (induction kvs arbitrary: acc)
  case Nil
  then show ?case by simp
next
  case (Cons kv kvs)
  obtain k v where kv: "kv = (k, v)" by (cases kv)
  from Cons.prems have fresh: "k \<notin> fst ` set acc" unfolding kv by auto
  from Cons.prems have "distinct (map fst ((acc @ [(k, v)]) @ kvs))" unfolding kv by simp
  from Cons.IH[OF this] show ?case unfolding kv by (simp add: update_fresh[OF fresh])
qed

lemma dict_of_distinct_id: "distinct (map fst kvs) \<Longrightarrow> dict_of kvs = kvs"
  using fold_update_fresh[of "[]" kvs] by (simp add: dict_of_def)

lemma fold_update_subset:
  "set (fold (\<lambda>(k, v) d. AList.update k v d) kvs acc) \<subseteq> set kvs \<union> set acc"
proof (induction kvs arbitrary: acc)
  case Nil
  then show ?case by simp
next
  case (Cons kv kvs)
  obtain k v where kv: "kv = (k, v)" by (cases kv)
  have "set (fold (\<lambda>(k, v) d. AList.update k v d) kvs (AList.update k v acc))
      \<subseteq> set kvs \<union> set (AList.update k v acc)" by (rule Cons.IH)
  with set_update_subset[of k v acc] show ?case unfolding kv by auto
qed

lemma map_of_port_dict:
  assumes "map_of (dict_of (map (\<lambda>d. (name d, d)) defs)) n = Some df"
  shows "name df = n" and "df \<in> set defs"
proof -
  from assms have "(n, df) \<in> set (dict_of (map (\<lambda>d. (name d, d)) defs))" by (rule map_of_SomeD)
  with fold_update_subset[of "map (\<lambda>d. (name d, d)) defs" "[]"]
  have "(n, df) \<in> set (map (\<lambda>d. (name d, d)) defs)" by (auto simp: dict_of_def)
  then show "name df = n" and "df \<in> set defs" by auto
qed

lemma port_dict_has:
  "n \<in> name ` set defs \<Longrightarrow> \<exists>df. map_of (dict_of (map (\<lambda>d. (name d, d)) defs)) n = Some df"
proof -
  assume "n \<in> name ` set defs"
  then have "n \<in> fst ` set (dict_of (map (\<lambda>d. (name d, d)) defs))"
    by (simp add: dict_of_keys image_image)
  then show ?thesis by (metis map_of_eq_None_iff not_None_eq)
qed

lemma defs_by_asset_key_fresh:
  "distinct (map fst acc @ map fst items) \<Longrightarrow>
   \<forall>n\<in>snd ` set items. map_of pd n \<noteq> None \<Longrightarrow>
   defs_by_asset_key pd items acc = Inr (acc @ map (\<lambda>(k, n). (k, the (map_of pd n))) items)"
proof (induction pd items acc rule: defs_by_asset_key.induct)
  case (1 port_dict acc)
  then show ?case by simp
next
  case (2 port_dict asset_key name items acc)
  from 2(3) obtain d where d: "map_of port_dict name = Some d" by auto
  from 2(2) have fresh: "asset_key \<notin> fst ` set acc" by auto
  have upd: "AList.update asset_key d acc = acc @ [(asset_key, d)]"
    by (rule update_fresh[OF fresh])
  from 2(2) have "distinct (map fst (acc @ [(asset_key, d)]) @ map fst items)" by simp
  moreover from 2(3) have "\<forall>n\<in>snd ` set items. map_of port_dict n \<noteq> None" by simp
  ultimately have "defs_by_asset_key port_dict items (acc @ [(asset_key, d)])
      = Inr ((acc @ [(asset_key, d)]) @ map (\<lambda>(k, n). (k, the (map_of port_dict n))) items)"
    using 2(1)[OF d] unfolding upd by blast
  then show ?case using d by (simp add: upd)
qed

lemma defs_by_asset_key_from_dict:
  "defs_by_asset_key pd items acc = Inr r \<Longrightarrow>
   \<forall>e\<in>set acc. \<exists>n. map_of pd n = Some (snd e) \<Longrightarrow>
   \<forall>e\<in>set r. \<exists>n. map_of pd n = Some (snd e)"
proof (induction pd items acc rule: defs_by_asset_key.induct)
  case (1 port_dict acc)
  then show ?case by simp
next
  case (2 port_dict asset_key name items acc)
  from 2(2) obtain d where d: "map_of port_dict name = Some d"
    and r: "defs_by_asset_key port_dict items (AList.update asset_key d acc) = Inr r"
    by (auto split: option.splits)
  have "\<forall>e\<in>set (AList.update asset_key d acc). \<exists>n. map_of port_dict n = Some (snd e)"
    using set_update_subset[of asset_key d acc] 2(3) d by fastforce
  from 2(1)[OF d r this] show ?case .
qed

text \<open>Replacing the keys of a dict of ports and looking the ports up again by name.\<close>

lemma replace_ports:
  fixes name :: "'d \<Rightarrow> string"
  assumes dist: "distinct (map fst xs)"
    and inj: "inj_on sub (fst ` set xs)"
    and names: "\<forall>e\<in>set xs. name (snd e) \<in> name ` set defs"
  shows "\<exists>r. defs_by_asset_key (dict_of (map (\<lambda>d. (name d, d)) defs))
           (dict_of (map (\<lambda>(key, df). (sub key, name df)) xs)) [] = Inr r
         \<and> map (\<lambda>(key, df). (key, name df)) r = map (\<lambda>(key, df). (sub key, name df)) xs
         \<and> r = map (\<lambda>(key, df). (sub key,
                 the (map_of (dict_of (map (\<lambda>d. (name d, d)) defs)) (name df)))) xs"
proof -
  let ?pd = "dict_of (map (\<lambda>d. (name d, d)) defs)"
  let ?items = "map (\<lambda>(key, df). (sub key, name df)) xs"
  let ?r = "map (\<lambda>(key, df). (sub key, the (map_of ?pd (name df)))) xs"
  have keys: "map fst ?items = map sub (map fst xs)" by (induction xs) auto
  have "distinct (map sub (map fst xs))"
    by (subst distinct_map) (use dist inj in simp)
  then have d: "distinct (map fst ?items)" by (simp only: keys)
  then have items: "dict_of ?items = ?items" by (rule dict_of_distinct_id)
  have found: "\<forall>n\<in>snd ` set ?items. map_of ?pd n \<noteq> None"
  proof
    fix n assume "n \<in> snd ` set ?items"
    then obtain e where "e \<in> set xs" "n = name (snd e)" by force
    with names have "n \<in> name ` set defs" by blast
    from port_dict_has[OF this] show "map_of ?pd n \<noteq> None" by auto
  qed
  have "defs_by_asset_key ?pd ?items [] = Inr ([] @ map (\<lambda>(k, n). (k, the (map_of ?pd n))) ?items)"
    by (rule defs_by_asset_key_fresh) (use d found in simp_all)
  moreover have "map (\<lambda>(k, n). (k, the (map_of ?pd n))) ?items = ?r"
    by (induction xs) auto
  moreover have "map (\<lambda>(key, df). (key, name df)) ?r = ?items"
  proof -
    have H: "name (the (map_of ?pd (name (snd e)))) = name (snd e)" if "e \<in> set xs" for e
    proof -
      from that names have "name (snd e) \<in> name ` set defs" by blast
      from port_dict_has[OF this] obtain df where df: "map_of ?pd (name (snd e)) = Some df" by blast
      from map_of_port_dict(1)[OF df] df show ?thesis by simp
    qed
    show ?thesis unfolding map_map
    proof (rule map_cong[OF refl])
      fix e assume "e \<in> set xs"
      from H[OF this]
      show "((\<lambda>(key, df). (key, name df)) \<circ>
              (\<lambda>(key, df). (sub key, the (map_of ?pd (name df))))) e
            = (\<lambda>(key, df). (sub key, name df)) e"
        by (cases e) simp
    qed
  qed
  ultimately show ?thesis by (simp add: items)
qed

lemma init_invariant:
  assumes "AssetsDefinition_init i ou op_def pd pm = Inr d"
  shows "distinct (map fst (input_defs_by_asset_key d))"
    and "distinct (map fst (output_defs_by_asset_key d))"
    and "\<forall>e\<in>set (input_defs_by_asset_key d).
           map_of (input_dict op_def) (idef_name (snd e)) = Some (snd e)
           \<and> snd e \<in> set (input_defs op_def)"
    and "\<forall>e\<in>set (output_defs_by_asset_key d).
           map_of (output_dict op_def) (odef_name (snd e)) = Some (snd e)
           \<and> snd e \<in> set (output_defs op_def)"
proof -
  note i = init_Inr[OF assms]
  show "distinct (map fst (input_defs_by_asset_key d))"
    using defs_by_asset_key_distinct[OF i(1)] by simp
  show "distinct (map fst (output_defs_by_asset_key d))"
    using defs_by_asset_key_distinct[OF i(2)] by simp
  have a: "\<forall>e\<in>set (input_defs_by_asset_key d). \<exists>n. map_of (input_dict op_def) n = Some (snd e)"
    by (rule defs_by_asset_key_from_dict[OF i(1)]) simp
  show "\<forall>e\<in>set (input_defs_by_asset_key d).
           map_of (input_dict op_def) (idef_name (snd e)) = Some (snd e)
           \<and> snd e \<in> set (input_defs op_def)"
  proof
    fix e assume "e \<in> set (input_defs_by_asset_key d)"
    with a obtain n where n: "map_of (input_dict op_def) n = Some (snd e)" by blast
    from map_of_port_dict[OF n[unfolded input_dict_def]] n
    show "map_of (input_dict op_def) (idef_name (snd e)) = Some (snd e)
           \<and> snd e \<in> set (input_defs op_def)" by simp
  qed
  have b: "\<forall>e\<in>set (output_defs_by_asset_key d). \<exists>n. map_of (output_dict op_def) n = Some (snd e)"
    by (rule defs_by_asset_key_from_dict[OF i(2)]) simp
  show "\<forall>e\<in>set (output_defs_by_asset_key d).
           map_of (output_dict op_def) (odef_name (snd e)) = Some (snd e)
           \<and> snd e \<in> set (output_defs op_def)"
  proof
    fix e assume "e \<in> set (output_defs_by_asset_key d)"
    with b obtain n where n: "map_of (output_dict op_def) n = Some (snd e)" by blast
    from map_of_port_dict[OF n[unfolded output_dict_def]] n
    show "map_of (output_dict op_def) (odef_name (snd e)) = Some (snd e)
           \<and> snd e \<in> set (output_defs op_def)" by simp
  qed
qed

lemma lookup_again:
  assumes "\<forall>e\<in>set xs. map_of pd (name (snd e)) = Some (snd e)"
  shows "map (\<lambda>(key, df). (key, the (map_of pd (name df)))) xs = xs"
proof (rule map_idI)
  fix e assume "e \<in> set xs"
  with assms show "(case e of (key, df) \<Rightarrow> (key, the (map_of pd (name df)))) = e"
    by (cases e) auto
qed


lemmas ex_defs = port_a_def port_b_def port_result_def port_other_def example_op_def keep_op_def
  example_assets_def partitioned_assets_def
lemmas run_defs = AssetsDefinition_init_def input_dict_def output_dict_def dict_of_def
  dict_get_def with_replaced_asset_keys_def asset_keys_def dependency_asset_keys_def

lemma init_example_assets:
  "AssetsDefinition_init [(AssetKey [''k1''], ''a''), (AssetKey [''k2''], ''b'')]
     [(AssetKey [''r''], ''result'')] example_op None None = Inr example_assets"
  by (simp add: run_defs ex_defs)

lemma init_partitioned_assets:
  "AssetsDefinition_init [(AssetKey [''up''], ''a'')] [(AssetKey [''r''], ''result'')] example_op
     (Some ''daily'') (Some [(AssetKey [''up''], ''previous_day'')]) = Inr partitioned_assets"
  by (simp add: run_defs ex_defs)

lemma map_of_fold_infer_outs:
  "map_of (fold (\<lambda>key inferred.
              if key \<notin> set (map fst inferred)
              then AList.update key (AssetKey [key]) inferred else inferred) names acc) n
   = (case map_of acc n of
        Some k \<Rightarrow> Some k
      | None \<Rightarrow> if n \<in> set names then Some (AssetKey [n]) else None)"
proof (induction names arbitrary: acc)
  case Nil
  then show ?case by (simp split: option.splits)
next
  case (Cons a names)
  show ?case
  proof (cases "a \<in> fst ` set acc")
    case True
    then obtain k where "map_of acc a = Some k" by (metis map_of_eq_None_iff not_None_eq)
    with True Cons.IH[of acc] show ?thesis by (auto split: option.splits)
  next
    case False
    then have "map_of acc a = None" by (simp add: map_of_eq_None_iff)
    with False Cons.IH[of "AList.update a (AssetKey [a]) acc"] show ?thesis
      by (auto simp: update_conv' split: option.splits)
  qed
qed

lemma infer_asset_key_by_output_name_complete:
  assumes "fst ` set overrides \<subseteq> set (outs_keys op_def)"
  shows "\<exists>r. infer_asset_key_by_output_name op_def overrides = Inr r
     \<and> (\<forall>n\<in>set (outs_keys op_def).
           map_of r n = Some (case map_of overrides n of Some k \<Rightarrow> k | None \<Rightarrow> AssetKey [n]))"
proof -
  let ?r = "fold (\<lambda>key inferred.
              if key \<notin> set (map fst inferred)
              then AList.update key (AssetKey [key]) inferred else inferred)
            (outs_keys op_def) overrides"
  have "find (\<lambda>k. k \<notin> set (outs_keys op_def)) (map fst overrides) = None"
    using assms by (intro find_not_in_None[where P = "\<lambda>k. k \<in> set (outs_keys op_def)"]) auto
  then have eq: "infer_asset_key_by_output_name op_def overrides = Inr ?r"
    by (simp add: infer_asset_key_by_output_name_def Let_def)
  show ?thesis
  proof (intro exI conjI ballI)
    show "infer_asset_key_by_output_name op_def overrides = Inr ?r" by (rule eq)
  next
    fix n assume "n \<in> set (outs_keys op_def)"
    then show "map_of ?r n = Some (case map_of overrides n of Some k \<Rightarrow> k | None \<Rightarrow> AssetKey [n])"
      unfolding map_of_fold_infer_outs by (simp split: option.splits)
  qed
qed

section \<open>Assets definitions\<close>

text \<open>
  C8. On an assets definition with exactly one output key, \<^verbatim>\<open>asset_key\<close> returns that key; on
  one with more than one output key it fails, with the \<^verbatim>\<open>CheckError\<close> of \<^verbatim>\<open>check.invariant\<close>
  that lists the keys.
\<close>

theorem asset_key_single_or_ambiguous:
  assumes "AssetsDefinition_init input_names output_names op_def pd pm = Inr d"
  shows "(set (asset_keys d) = {k} \<longrightarrow> asset_key d = Inr k)
       \<and> (1 < card (set (asset_keys d)) \<longrightarrow>
            asset_key d = Inl (CheckError_multiple_asset_keys (asset_keys d)))"
proof -
  have dist: "distinct (asset_keys d)"
    unfolding asset_keys_def
    using defs_by_asset_key_distinct[OF init_Inr(2)[OF assms]] by simp
  have len: "length (output_defs_by_asset_key d) = card (set (asset_keys d))"
    using distinct_card[OF dist] by (simp add: asset_keys_def)
  show ?thesis
  proof (intro conjI impI)
    assume s: "set (asset_keys d) = {k}"
    with len have "length (output_defs_by_asset_key d) = 1" by simp
    then obtain e where e: "output_defs_by_asset_key d = [e]"
      by (cases "output_defs_by_asset_key d") auto
    with s have "fst e = k" by (simp add: asset_keys_def)
    with e show "asset_key d = Inr k" by (simp add: asset_key_def)
  next
    assume "1 < card (set (asset_keys d))"
    with len show "asset_key d = Inl (CheckError_multiple_asset_keys (asset_keys d))"
      by (simp add: asset_key_def asset_keys_def)
  qed
qed


theorem asset_key_single_or_ambiguous_witness:
  "AssetsDefinition_init [(AssetKey [''k1''], ''a''), (AssetKey [''k2''], ''b'')]
     [(AssetKey [''r''], ''result'')] example_op None None = Inr example_assets
   \<and> set (asset_keys example_assets) = {AssetKey [''r'']}
   \<and> asset_key example_assets = Inr (AssetKey [''r''])
   \<and> AssetsDefinition_init [] [(AssetKey [''r''], ''result''), (AssetKey [''o''], ''other'')]
        example_op (None :: string option) (None :: (AssetKey, string) dict option)
      = Inr \<lparr>op = example_op, input_defs_by_asset_key = [],
             output_defs_by_asset_key = [(AssetKey [''r''], port_result), (AssetKey [''o''], port_other)],
             partitions_def = None, partition_mappings = []\<rparr>
   \<and> 1 < card (set (asset_keys \<lparr>op = example_op, input_defs_by_asset_key = [],
             output_defs_by_asset_key = [(AssetKey [''r''], port_result), (AssetKey [''o''], port_other)],
             partitions_def = (None :: string option),
             partition_mappings = ([] :: (AssetKey, string) dict)\<rparr>))
   \<and> asset_key \<lparr>op = example_op, input_defs_by_asset_key = [],
             output_defs_by_asset_key = [(AssetKey [''r''], port_result), (AssetKey [''o''], port_other)],
             partitions_def = (None :: string option),
             partition_mappings = ([] :: (AssetKey, string) dict)\<rparr>
      = Inl (CheckError_multiple_asset_keys [AssetKey [''r''], AssetKey [''o'']])"
proof -
  let ?two = "\<lparr>op = example_op, input_defs_by_asset_key = [],
             output_defs_by_asset_key = [(AssetKey [''r''], port_result), (AssetKey [''o''], port_other)],
             partitions_def = (None :: string option),
             partition_mappings = ([] :: (AssetKey, string) dict)\<rparr>"
  have h2: "AssetsDefinition_init [] [(AssetKey [''r''], ''result''), (AssetKey [''o''], ''other'')]
        example_op None None = Inr ?two"
    by (simp add: run_defs ex_defs)
  have s1: "set (asset_keys example_assets) = {AssetKey [''r'']}"
    by (simp add: asset_keys_def example_assets_def)
  have s2: "1 < card (set (asset_keys ?two))" by (simp add: asset_keys_def)
  from asset_key_single_or_ambiguous [OF init_example_assets, of "AssetKey [''r'']"]
       asset_key_single_or_ambiguous [OF h2, of "AssetKey [''r'']"]
       init_example_assets h2 s1 s2
  show ?thesis by (simp add: asset_keys_def)
qed

text \<open>
  C9. \<^verbatim>\<open>get_partition_mapping\<close> fails, for every key, when the definition has no partitions
  definition (the \<^verbatim>\<open>CheckError\<close> of \<^verbatim>\<open>check.failed\<close>), and only then; with a partitions
  definition it returns the mapping stored for the key, or the default mapping of the
  partitions definition when none is stored.
\<close>

theorem get_partition_mapping_cases:
  "(partitions_def d = None \<longrightarrow>
      (\<forall>k. get_partition_mapping get_default d k = Inl CheckError_not_partitioned))
   \<and> ((\<exists>k e. get_partition_mapping get_default d k = Inl e) \<longrightarrow> partitions_def d = None)
   \<and> (\<forall>pd. partitions_def d = Some pd \<longrightarrow>
        (\<forall>k. get_partition_mapping get_default d k =
              Inr (case map_of (partition_mappings d) k of
                     Some m \<Rightarrow> m | None \<Rightarrow> get_default pd)))"
  by (auto simp: get_partition_mapping_def dict_get_def split: option.splits)


theorem get_partition_mapping_cases_witness:
  "partitions_def example_assets = None
   \<and> get_partition_mapping (\<lambda>pd. pd @ ''_identity'') example_assets (AssetKey [''k1''])
       = Inl CheckError_not_partitioned
   \<and> get_partition_mapping (\<lambda>pd. pd @ ''_identity'') example_assets (AssetKey [''absent''])
       = Inl CheckError_not_partitioned
   \<and> partitions_def partitioned_assets = Some ''daily''
   \<and> get_partition_mapping (\<lambda>pd. pd @ ''_identity'') partitioned_assets (AssetKey [''up''])
       = Inr ''previous_day''
   \<and> get_partition_mapping (\<lambda>pd. pd @ ''_identity'') partitioned_assets (AssetKey [''absent''])
       = Inr ''daily_identity''"
proof -
  have h1: "partitions_def example_assets = None" by (simp add: example_assets_def)
  have h2: "partitions_def partitioned_assets = Some ''daily''" by (simp add: partitioned_assets_def)
  have m: "map_of (partition_mappings partitioned_assets) (AssetKey [''up'']) = Some ''previous_day''"
    "map_of (partition_mappings partitioned_assets) (AssetKey [''absent'']) = None"
    by (simp_all add: partitioned_assets_def)
  from get_partition_mapping_cases [of example_assets "\<lambda>pd. pd @ ''_identity''"]
       get_partition_mapping_cases [of partitioned_assets "\<lambda>pd. pd @ ''_identity''"]
       h1 h2 m
  show ?thesis by simp
qed

text \<open>
  C6, as the code has it. \<^verbatim>\<open>__init__\<close> has no check on the number of outputs: the output keys
  of a constructed definition are the keys of the mapping it was given, and with an empty
  mapping the construction succeeds, when each input name is an input of the op, and returns
  a definition with no output key.
\<close>

theorem init_keeps_output_keys:
  "(AssetsDefinition_init input_names output_names op_def pd pm = Inr d \<longrightarrow>
      set (asset_keys d) = fst ` set output_names)
   \<and> (snd ` set input_names \<subseteq> idef_name ` set (input_defs op_def) \<longrightarrow>
      (\<exists>d'. AssetsDefinition_init input_names [] op_def pd pm = Inr d' \<and> asset_keys d' = []))"
proof (intro conjI impI)
  assume a: "AssetsDefinition_init input_names output_names op_def pd pm = Inr d"
  from defs_by_asset_key_keys[OF init_Inr(2)[OF a]]
  show "set (asset_keys d) = fst ` set output_names" by (simp add: asset_keys_def)
next
  assume "snd ` set input_names \<subseteq> idef_name ` set (input_defs op_def)"
  then have "snd ` set input_names \<subseteq> fst ` set (input_dict op_def)"
    by (simp add: input_dict_def dict_of_keys image_image)
  from defs_by_asset_key_succeeds[OF this, of "[]"]
  show "\<exists>d'. AssetsDefinition_init input_names [] op_def pd pm = Inr d' \<and> asset_keys d' = []"
    by (auto simp: AssetsDefinition_init_def asset_keys_def)
qed

theorem init_keeps_output_keys_witness:
  "AssetsDefinition_init [(AssetKey [''k1''], ''a''), (AssetKey [''k2''], ''b'')]
     [(AssetKey [''r''], ''result'')] example_op None None = Inr example_assets
   \<and> set (asset_keys example_assets) = fst ` set [(AssetKey [''r''], ''result'')]
   \<and> snd ` set [(AssetKey [''k1''], ''a''), (AssetKey [''k2''], ''b'')]
        \<subseteq> idef_name ` set (input_defs example_op)
   \<and> (\<exists>d'. AssetsDefinition_init [(AssetKey [''k1''], ''a''), (AssetKey [''k2''], ''b'')] []
              example_op (None :: string option) (None :: (AssetKey, string) dict option) = Inr d'
            \<and> asset_keys d' = [])"
proof -
  have h: "snd ` set [(AssetKey [''k1''], ''a''), (AssetKey [''k2''], ''b'')]
        \<subseteq> idef_name ` set (input_defs example_op)"
    by (simp add: ex_defs)
  from init_keeps_output_keys [of "[(AssetKey [''k1''], ''a''), (AssetKey [''k2''], ''b'')]"
       "[(AssetKey [''r''], ''result'')]" example_op None None example_assets]
       init_example_assets h
  show ?thesis by simp
qed

text \<open>
  C6, as the claim states it, fails: \<^verbatim>\<open>__init__\<close> with an empty mapping of outputs returns an
  assets definition, which has no output key.
\<close>

theorem init_accepts_empty_outputs_counterexample:
  "AssetsDefinition_init [] [] example_op (None :: string option)
      (None :: (AssetKey, string) dict option)
    = Inr \<lparr>op = example_op, input_defs_by_asset_key = [], output_defs_by_asset_key = [],
           partitions_def = None, partition_mappings = []\<rparr>"
  by (simp add: run_defs ex_defs)

text \<open>
  C3, as the code has it. For an assets definition \<open>d\<close> built by \<^verbatim>\<open>__init__\<close>, an op-level
  replacement \<open>R\<close> that keeps the names of the ports, and replacement tables that send no two
  input keys of \<open>d\<close> and no two output keys of \<open>d\<close> to the same key,
  \<^verbatim>\<open>with_replaced_asset_keys\<close> returns a definition whose input keys and output keys are
  those of \<open>d\<close> with each key in the table replaced and each other key kept, in the same
  order and with the same port names; the op is the replaced op and the partitions
  definition is that of \<open>d\<close>. With both tables empty, and an op that its own replacement
  leaves unchanged, the result is \<open>d\<close>.
\<close>

theorem with_replaced_asset_keys_injective:
  assumes init: "AssetsDefinition_init input_names output_names op_def pd pm = Inr d"
  shows "(map idef_name (input_defs (R orep irep op_def)) = map idef_name (input_defs op_def)
          \<and> map odef_name (output_defs (R orep irep op_def)) = map odef_name (output_defs op_def)
          \<and> inj_on (\<lambda>k. dict_get irep k k) (set (dependency_asset_keys d))
          \<and> inj_on (\<lambda>k. dict_get orep k k) (set (asset_keys d))
        \<longrightarrow> (\<exists>d'. with_replaced_asset_keys R d orep irep = Inr d'
              \<and> map (\<lambda>(k, df). (k, idef_name df)) (input_defs_by_asset_key d')
                  = map (\<lambda>(k, df). (dict_get irep k k, idef_name df)) (input_defs_by_asset_key d)
              \<and> map (\<lambda>(k, df). (k, odef_name df)) (output_defs_by_asset_key d')
                  = map (\<lambda>(k, df). (dict_get orep k k, odef_name df)) (output_defs_by_asset_key d)
              \<and> op d' = R orep irep op_def
              \<and> partitions_def d' = partitions_def d))
       \<and> (R [] [] op_def = op_def \<longrightarrow> with_replaced_asset_keys R d [] [] = Inr d)"
proof (intro conjI impI)
  note inv = init_invariant[OF init]
  note i = init_Inr[OF init]
  assume a: "map idef_name (input_defs (R orep irep op_def)) = map idef_name (input_defs op_def)
          \<and> map odef_name (output_defs (R orep irep op_def)) = map odef_name (output_defs op_def)
          \<and> inj_on (\<lambda>k. dict_get irep k k) (set (dependency_asset_keys d))
          \<and> inj_on (\<lambda>k. dict_get orep k k) (set (asset_keys d))"
  let ?new = "R orep irep op_def"
  from a have "set (map idef_name (input_defs ?new)) = set (map idef_name (input_defs op_def))"
    by simp
  then have in_names: "idef_name ` set (input_defs ?new) = idef_name ` set (input_defs op_def)"
    by simp
  from a have "set (map odef_name (output_defs ?new)) = set (map odef_name (output_defs op_def))"
    by simp
  then have out_names: "odef_name ` set (output_defs ?new) = odef_name ` set (output_defs op_def)"
    by simp
  have n1: "\<forall>e\<in>set (input_defs_by_asset_key d). idef_name (snd e) \<in> idef_name ` set (input_defs ?new)"
    using inv(3) in_names by blast
  have n2: "\<forall>e\<in>set (output_defs_by_asset_key d). odef_name (snd e) \<in> odef_name ` set (output_defs ?new)"
    using inv(4) out_names by blast
  from a have j1: "inj_on (\<lambda>k. dict_get irep k k) (fst ` set (input_defs_by_asset_key d))"
    by (simp add: dependency_asset_keys_def)
  from a have j2: "inj_on (\<lambda>k. dict_get orep k k) (fst ` set (output_defs_by_asset_key d))"
    by (simp add: asset_keys_def)
  from replace_ports[OF inv(1) j1 n1] obtain r1 where
    r1: "defs_by_asset_key (input_dict ?new)
           (dict_of (map (\<lambda>(key, df). (dict_get irep key key, idef_name df))
              (input_defs_by_asset_key d))) [] = Inr r1"
    "map (\<lambda>(key, df). (key, idef_name df)) r1
       = map (\<lambda>(key, df). (dict_get irep key key, idef_name df)) (input_defs_by_asset_key d)"
    unfolding input_dict_def by blast
  from replace_ports[OF inv(2) j2 n2] obtain r2 where
    r2: "defs_by_asset_key (output_dict ?new)
           (dict_of (map (\<lambda>(key, df). (dict_get orep key key, odef_name df))
              (output_defs_by_asset_key d))) [] = Inr r2"
    "map (\<lambda>(key, df). (key, odef_name df)) r2
       = map (\<lambda>(key, df). (dict_get orep key key, odef_name df)) (output_defs_by_asset_key d)"
    unfolding output_dict_def by blast
  show "\<exists>d'. with_replaced_asset_keys R d orep irep = Inr d'
              \<and> map (\<lambda>(k, df). (k, idef_name df)) (input_defs_by_asset_key d')
                  = map (\<lambda>(k, df). (dict_get irep k k, idef_name df)) (input_defs_by_asset_key d)
              \<and> map (\<lambda>(k, df). (k, odef_name df)) (output_defs_by_asset_key d')
                  = map (\<lambda>(k, df). (dict_get orep k k, odef_name df)) (output_defs_by_asset_key d)
              \<and> op d' = R orep irep op_def
              \<and> partitions_def d' = partitions_def d"
    using r1 r2 i(3)
    by (simp add: with_replaced_asset_keys_def AssetsDefinition_init_def)
next
  note inv = init_invariant[OF init]
  note i = init_Inr[OF init]
  assume same: "R [] [] op_def = op_def"
  have id: "dict_get [] k k = k" for k :: AssetKey by (simp add: dict_get_def)
  have n1: "\<forall>e\<in>set (input_defs_by_asset_key d). idef_name (snd e) \<in> idef_name ` set (input_defs op_def)"
    using inv(3) by blast
  have n2: "\<forall>e\<in>set (output_defs_by_asset_key d). odef_name (snd e) \<in> odef_name ` set (output_defs op_def)"
    using inv(4) by blast
  have j1: "inj_on (\<lambda>k::AssetKey. k) (fst ` set (input_defs_by_asset_key d))" by simp
  have j2: "inj_on (\<lambda>k::AssetKey. k) (fst ` set (output_defs_by_asset_key d))" by simp
  from replace_ports[OF inv(1) j1 n1]
  have "defs_by_asset_key (input_dict op_def)
           (dict_of (map (\<lambda>(key, df). (key, idef_name df)) (input_defs_by_asset_key d))) []
        = Inr (map (\<lambda>(key, df). (key, the (map_of (input_dict op_def) (idef_name df))))
                (input_defs_by_asset_key d))"
    unfolding input_dict_def by auto
  moreover have "map (\<lambda>(key, df). (key, the (map_of (input_dict op_def) (idef_name df))))
                (input_defs_by_asset_key d) = input_defs_by_asset_key d"
    by (rule lookup_again) (use inv(3) in blast)
  ultimately have r1: "defs_by_asset_key (input_dict op_def)
           (dict_of (map (\<lambda>(key, df). (key, idef_name df)) (input_defs_by_asset_key d))) []
        = Inr (input_defs_by_asset_key d)" by simp
  from replace_ports[OF inv(2) j2 n2]
  have "defs_by_asset_key (output_dict op_def)
           (dict_of (map (\<lambda>(key, df). (key, odef_name df)) (output_defs_by_asset_key d))) []
        = Inr (map (\<lambda>(key, df). (key, the (map_of (output_dict op_def) (odef_name df))))
                (output_defs_by_asset_key d))"
    unfolding output_dict_def by auto
  moreover have "map (\<lambda>(key, df). (key, the (map_of (output_dict op_def) (odef_name df))))
                (output_defs_by_asset_key d) = output_defs_by_asset_key d"
    by (rule lookup_again) (use inv(4) in blast)
  ultimately have r2: "defs_by_asset_key (output_dict op_def)
           (dict_of (map (\<lambda>(key, df). (key, odef_name df)) (output_defs_by_asset_key d))) []
        = Inr (output_defs_by_asset_key d)" by simp
  show "with_replaced_asset_keys R d [] [] = Inr d"
    using r1 r2 i(3) same
    by (simp add: with_replaced_asset_keys_def AssetsDefinition_init_def id)
qed

theorem with_replaced_asset_keys_injective_witness:
  "AssetsDefinition_init [(AssetKey [''k1''], ''a''), (AssetKey [''k2''], ''b'')]
     [(AssetKey [''r''], ''result'')] example_op None None = Inr example_assets
   \<and> inj_on (\<lambda>k. dict_get [(AssetKey [''k1''], AssetKey [''ns'', ''k1''])] k k)
        (set (dependency_asset_keys example_assets))
   \<and> inj_on (\<lambda>k. dict_get [(AssetKey [''r''], AssetKey [''ns'', ''r''])] k k)
        (set (asset_keys example_assets))
   \<and> with_replaced_asset_keys keep_op example_assets
        [(AssetKey [''r''], AssetKey [''ns'', ''r''])] [(AssetKey [''k1''], AssetKey [''ns'', ''k1''])]
      = Inr (example_assets
          \<lparr>input_defs_by_asset_key := [(AssetKey [''ns'', ''k1''], port_a), (AssetKey [''k2''], port_b)],
           output_defs_by_asset_key := [(AssetKey [''ns'', ''r''], port_result)]\<rparr>)
   \<and> keep_op [] [] example_op = example_op
   \<and> with_replaced_asset_keys keep_op example_assets [] [] = Inr example_assets"
proof -
  have names: "map idef_name (input_defs (keep_op [(AssetKey [''r''], AssetKey [''ns'', ''r''])]
          [(AssetKey [''k1''], AssetKey [''ns'', ''k1''])] example_op))
        = map idef_name (input_defs example_op)
     \<and> map odef_name (output_defs (keep_op [(AssetKey [''r''], AssetKey [''ns'', ''r''])]
          [(AssetKey [''k1''], AssetKey [''ns'', ''k1''])] example_op))
        = map odef_name (output_defs example_op)"
    by (simp add: keep_op_def)
  have inj: "inj_on (\<lambda>k. dict_get [(AssetKey [''k1''], AssetKey [''ns'', ''k1''])] k k)
        (set (dependency_asset_keys example_assets))"
    "inj_on (\<lambda>k. dict_get [(AssetKey [''r''], AssetKey [''ns'', ''r''])] k k)
        (set (asset_keys example_assets))"
    by (simp_all add: dict_get_def dependency_asset_keys_def asset_keys_def example_assets_def)
  have k: "keep_op [] [] example_op = example_op" by (simp add: keep_op_def)
  have r: "with_replaced_asset_keys keep_op example_assets
        [(AssetKey [''r''], AssetKey [''ns'', ''r''])] [(AssetKey [''k1''], AssetKey [''ns'', ''k1''])]
      = Inr (example_assets
          \<lparr>input_defs_by_asset_key := [(AssetKey [''ns'', ''k1''], port_a), (AssetKey [''k2''], port_b)],
           output_defs_by_asset_key := [(AssetKey [''ns'', ''r''], port_result)]\<rparr>)"
    by (simp add: run_defs ex_defs)
  from with_replaced_asset_keys_injective [OF init_example_assets, of keep_op
        "[(AssetKey [''r''], AssetKey [''ns'', ''r''])]"
        "[(AssetKey [''k1''], AssetKey [''ns'', ''k1''])]"]
       init_example_assets names inj k r
  show ?thesis by simp
qed

text \<open>
  C3, as the claim states it, fails: when the input table sends the key \<open>k1\<close> of the port \<open>a\<close>
  to \<open>k2\<close>, which is the key of the port \<open>b\<close>, the result has the single input key \<open>k2\<close>
  with the port \<open>b\<close>; the port name of \<open>k1\<close> is not carried over.
\<close>

theorem with_replaced_asset_keys_collision_counterexample:
  "AssetsDefinition_init [(AssetKey [''k1''], ''a''), (AssetKey [''k2''], ''b'')]
     [(AssetKey [''r''], ''result'')] example_op None None = Inr example_assets
   \<and> with_replaced_asset_keys keep_op example_assets [] [(AssetKey [''k1''], AssetKey [''k2''])]
     = Inr (example_assets\<lparr>input_defs_by_asset_key := [(AssetKey [''k2''], port_b)]\<rparr>)"
  by (simp add: run_defs ex_defs)

text \<open>
  C4. The claim fails on the code: \<^verbatim>\<open>with_replaced_asset_keys\<close> replaces the keys of the inputs
  and passes the partition mappings on as they are. For the definition with the input key
  \<open>up\<close> and a partition mapping stored for \<open>up\<close>, replacing \<open>up\<close> by \<open>["ns", "up"]\<close> gives a
  definition whose partition mappings still have the key \<open>up\<close>, which is no input key of
  the result; \<^verbatim>\<open>get_partition_mapping\<close> on the new input key returns the default mapping
  and no longer the stored one.
\<close>

theorem with_replaced_asset_keys_leaves_partition_mappings:
  "AssetsDefinition_init [(AssetKey [''up''], ''a'')] [(AssetKey [''r''], ''result'')] example_op
     (Some ''daily'') (Some [(AssetKey [''up''], ''previous_day'')]) = Inr partitioned_assets
   \<and> set (map fst (partition_mappings partitioned_assets))
        \<subseteq> set (dependency_asset_keys partitioned_assets)
   \<and> with_replaced_asset_keys keep_op partitioned_assets []
        [(AssetKey [''up''], AssetKey [''ns'', ''up''])]
      = Inr (partitioned_assets\<lparr>input_defs_by_asset_key := [(AssetKey [''ns'', ''up''], port_a)]\<rparr>)
   \<and> map fst (partition_mappings
        (partitioned_assets\<lparr>input_defs_by_asset_key := [(AssetKey [''ns'', ''up''], port_a)]\<rparr>))
      = [AssetKey [''up'']]
   \<and> dependency_asset_keys
        (partitioned_assets\<lparr>input_defs_by_asset_key := [(AssetKey [''ns'', ''up''], port_a)]\<rparr>)
      = [AssetKey [''ns'', ''up'']]
   \<and> \<not> set (map fst (partition_mappings
        (partitioned_assets\<lparr>input_defs_by_asset_key := [(AssetKey [''ns'', ''up''], port_a)]\<rparr>)))
        \<subseteq> set (dependency_asset_keys
        (partitioned_assets\<lparr>input_defs_by_asset_key := [(AssetKey [''ns'', ''up''], port_a)]\<rparr>))
   \<and> get_partition_mapping (\<lambda>pd. pd @ ''_identity'') partitioned_assets (AssetKey [''up''])
      = Inr ''previous_day''
   \<and> get_partition_mapping (\<lambda>pd. pd @ ''_identity'')
        (partitioned_assets\<lparr>input_defs_by_asset_key := [(AssetKey [''ns'', ''up''], port_a)]\<rparr>)
        (AssetKey [''ns'', ''up''])
      = Inr ''daily_identity''"
  by (simp add: run_defs ex_defs get_partition_mapping_def)

section \<open>Output ports\<close>

text \<open>
  The inference for an existing op, \<^verbatim>\<open>_infer_asset_key_by_output_name\<close>, gives each output of
  the op the key of its override, or the key made of its name: this is lemma
  \<open>infer_asset_key_by_output_name_complete\<close>.

  C2. The claim fails on \<^verbatim>\<open>build_asset_outs\<close>. The key given on an \<^verbatim>\<open>Out\<close> is computed into
  \<^verbatim>\<open>asset_keys_by_out_name\<close>, which is not used: the output \<open>a\<close> with the explicit key
  \<open>["x"]\<close> is returned under the key \<open>["a"]\<close>. And with a table \<^verbatim>\<open>out_name_to_asset_key\<close>
  that has an entry for \<open>a\<close> only, the output \<open>b\<close> is not in the result.
\<close>

theorem build_asset_outs_ignores_keys:
  "build_asset_outs ''my_op''
     [(''a'', \<lparr>out_asset_key = Some (AssetKey [''x'']), out_io_manager_key = None\<rparr>)] [] None
     = [(AssetKey [''a''], ''a'',
         Some \<lparr>out_asset_key = Some (AssetKey [''x'']), out_io_manager_key = None\<rparr>)]
   \<and> build_asset_outs ''my_op''
       [(''a'', \<lparr>out_asset_key = None, out_io_manager_key = None\<rparr>),
        (''b'', \<lparr>out_asset_key = None, out_io_manager_key = None\<rparr>)] []
       (Some [(''a'', AssetKey [''x''])])
     = [(AssetKey [''x''], ''a'', Some \<lparr>out_asset_key = None, out_io_manager_key = None\<rparr>)]"
  by (simp add: build_asset_outs_def dict_of_def)

end
